theory Spec2Isabelle
  imports Main
begin

section \<open>JavaScript values and the operations the extension applies to them\<close>

text \<open>
  The extension (\<^verbatim>\<open>src/extension.ts\<close>) reads the setting \<^verbatim>\<open>openUrl.urls\<close>, whose
  elements are arbitrary JSON values at run time (the source types them \<^verbatim>\<open>any\<close>).
  A string is a list of code units; the model covers code units below 256. Numbers are
  the integers of magnitude up to \<open>2^53\<close>, which \<^verbatim>\<open>String\<close> prints digit by digit
  (beyond them a double rounds, and from \<open>10^21\<close> on it prints an exponent). An object
  is the list of its own properties; the first binding of a key is the one a property
  read sees.
\<close>

datatype jsval =
    JUndefined
  | JNull
  | JBool bool
  | JNum int
  | JStr string
  | JArr "jsval list"
  | JObj "(string \<times> jsval) list"

text \<open>
  A thrown value. \<open>TypeError\<close> and \<open>URIError\<close> carry their message; \<open>Failure\<close> is
  any other value a host call rejects with, carrying what \<^verbatim>\<open>String(err)\<close> gives for it.
\<close>

datatype js_error = TypeError string | URIError string | Failure string

text \<open>
  \<^verbatim>\<open>String(err)\<close>: the name of the error, and after a colon its message when it has
  one.
\<close>

fun error_String :: "js_error \<Rightarrow> string" where
  "error_String (TypeError m) = (if m = [] then ''TypeError'' else ''TypeError: '' @ m)"
| "error_String (URIError m) = (if m = [] then ''URIError'' else ''URIError: '' @ m)"
| "error_String (Failure d) = d"

text \<open>\<^verbatim>\<open>typeof v === 'string'\<close> and \<^verbatim>\<open>typeof v === 'object'\<close>; \<^verbatim>\<open>typeof null\<close> is \<^verbatim>\<open>'object'\<close>.\<close>

fun typeof_string :: "jsval \<Rightarrow> bool" where
  "typeof_string (JStr s) = True"
| "typeof_string v = False"

fun typeof_object :: "jsval \<Rightarrow> bool" where
  "typeof_object JNull = True"
| "typeof_object (JArr xs) = True"
| "typeof_object (JObj kvs) = True"
| "typeof_object v = False"

text \<open>Truthiness (\<^verbatim>\<open>ToBoolean\<close>).\<close>

fun truthy :: "jsval \<Rightarrow> bool" where
  "truthy JUndefined = False"
| "truthy JNull = False"
| "truthy (JBool b) = b"
| "truthy (JNum n) = (n \<noteq> 0)"
| "truthy (JStr s) = (s \<noteq> [])"
| "truthy (JArr xs) = True"
| "truthy (JObj kvs) = True"

text \<open>A key between single quotes, as error messages print it.\<close>

definition quoted :: "string \<Rightarrow> string" where
  "quoted k = CHR 0x27 # k @ [CHR 0x27]"

text \<open>
  The property read \<^verbatim>\<open>v.k\<close> for the keys the extension reads (\<^verbatim>\<open>url\<close>, \<^verbatim>\<open>label\<close>):
  reading a property of \<^verbatim>\<open>null\<close> or \<^verbatim>\<open>undefined\<close> throws a TypeError (with the message
  Node gives it), an object gives its own property or \<^verbatim>\<open>undefined\<close>, and arrays and
  primitives have no such property.
\<close>

fun get_prop :: "jsval \<Rightarrow> string \<Rightarrow> js_error + jsval" where
  "get_prop JNull k =
     Inl (TypeError (''Cannot read properties of null (reading '' @ quoted k @ '')''))"
| "get_prop JUndefined k =
     Inl (TypeError (''Cannot read properties of undefined (reading '' @ quoted k @ '')''))"
| "get_prop (JObj kvs) k = Inr (case map_of kvs k of Some v \<Rightarrow> v | None \<Rightarrow> JUndefined)"
| "get_prop v k = Inr JUndefined"

text \<open>Decimal digits of a natural number, as \<^verbatim>\<open>String(n)\<close> prints them.\<close>

definition digit_char :: "nat \<Rightarrow> char" where
  "digit_char d = ''0123456789'' ! d"

fun string_of_nat :: "nat \<Rightarrow> string" where
  "string_of_nat n =
     (if n < 10 then [digit_char n] else string_of_nat (n div 10) @ [digit_char (n mod 10)])"

definition string_of_int :: "int \<Rightarrow> string" where
  "string_of_int i = (if i < 0 then CHR ''-'' # string_of_nat (nat (- i)) else string_of_nat (nat i))"

text \<open>
  \<^verbatim>\<open>String(v)\<close>. An array joins its elements with commas, \<^verbatim>\<open>null\<close> and \<^verbatim>\<open>undefined\<close>
  elements printing as nothing. A plain object prints as \<^verbatim>\<open>[object Object]\<close>; one with
  an own property \<^verbatim>\<open>toString\<close> (which JSON cannot make callable) has no primitive value,
  and the conversion throws.
\<close>

fun js_String :: "jsval \<Rightarrow> js_error + string"
  and js_join :: "jsval list \<Rightarrow> js_error + string" where
  "js_String JUndefined = Inr ''undefined''"
| "js_String JNull = Inr ''null''"
| "js_String (JBool b) = Inr (if b then ''true'' else ''false'')"
| "js_String (JNum n) = Inr (string_of_int n)"
| "js_String (JStr s) = Inr s"
| "js_String (JArr xs) = js_join xs"
| "js_String (JObj kvs) =
     (if map_of kvs ''toString'' \<noteq> None
      then Inl (TypeError ''Cannot convert object to primitive value'')
      else Inr ''[object Object]'')"
| "js_join [] = Inr []"
| "js_join (x # xs) =
     (case (if x = JUndefined \<or> x = JNull then Inr [] else js_String x) of
        Inl e \<Rightarrow> Inl e
      | Inr s \<Rightarrow>
          (if xs = [] then Inr s
           else (case js_join xs of Inl e \<Rightarrow> Inl e | Inr r \<Rightarrow> Inr (s @ '','' @ r))))"

section \<open>normalizeConfigEntries\<close>

text \<open>
  \<^verbatim>\<open>type UrlEntry = { label?: string; url: string }\<close>. The fields hold whatever the
  configuration held: \<^verbatim>\<open>it.label\<close> and \<^verbatim>\<open>it.url\<close> are copied unchecked, so they are
  values, and an absent label is \<^verbatim>\<open>undefined\<close>.
\<close>

record UrlEntry =
  label :: jsval
  url :: jsval

text \<open>Line 16, \<^verbatim>\<open>{ url: String(it) }\<close>.\<close>

definition stringified_entry :: "jsval \<Rightarrow> js_error + UrlEntry" where
  "stringified_entry it =
     (case js_String it of
        Inl e \<Rightarrow> Inl e
      | Inr s \<Rightarrow> Inr \<lparr>label = JUndefined, url = JStr s\<rparr>)"

text \<open>
  The callback of \<^verbatim>\<open>raw.map\<close> (lines 9 to 17), one raw element to one entry. The
  test \<^verbatim>\<open>typeof it === 'object' && it.url\<close> reads \<^verbatim>\<open>it.url\<close> whenever the type test
  passes, so also for \<^verbatim>\<open>null\<close>.
\<close>

definition normalize_entry :: "jsval \<Rightarrow> js_error + UrlEntry" where
  "normalize_entry it =
     (if typeof_string it then Inr \<lparr>label = JUndefined, url = it\<rparr>
      else if typeof_object it then
        (case get_prop it ''url'' of
           Inl e \<Rightarrow> Inl e
         | Inr u \<Rightarrow>
             (if truthy u then
                (case get_prop it ''label'' of
                   Inl e \<Rightarrow> Inl e
                 | Inr l \<Rightarrow> Inr \<lparr>label = l, url = u\<rparr>)
              else stringified_entry it))
      else stringified_entry it)"

text \<open>\<^verbatim>\<open>Array.prototype.map\<close> with a callback that may throw: the first throw ends the call.\<close>

fun map_throwing :: "('a \<Rightarrow> js_error + 'b) \<Rightarrow> 'a list \<Rightarrow> js_error + 'b list" where
  "map_throwing f [] = Inr []"
| "map_throwing f (x # xs) =
     (case f x of
        Inl e \<Rightarrow> Inl e
      | Inr y \<Rightarrow> (case map_throwing f xs of Inl e \<Rightarrow> Inl e | Inr ys \<Rightarrow> Inr (y # ys)))"

definition normalizeConfigEntries :: "jsval list option \<Rightarrow> js_error + UrlEntry list" where
  "normalizeConfigEntries raw =
     (case raw of
        None \<Rightarrow> Inr []
      | Some items \<Rightarrow> map_throwing normalize_entry items)"

section \<open>expandVariables\<close>

subsection \<open>String operations\<close>

text \<open>\<^verbatim>\<open>s.startsWith(p)\<close>.\<close>

definition startsWith :: "string \<Rightarrow> string \<Rightarrow> bool" where
  "startsWith s p = (take (length p) s = p)"

text \<open>\<^verbatim>\<open>s.split(c)\<close> for a separator of one character: never an empty array.\<close>

fun split_on :: "char \<Rightarrow> string \<Rightarrow> string list" where
  "split_on c [] = [[]]"
| "split_on c (x # xs) =
     (if x = c then [] # split_on c xs
      else (case split_on c xs of
              [] \<Rightarrow> [[x]]
            | p # ps \<Rightarrow> (x # p) # ps))"

text \<open>
  \<^verbatim>\<open>s.lastIndexOf(c)\<close>: the index of the last occurrence, or -1. The loop runs over the
  string with the index \<open>i\<close> of the next character and the last hit \<open>found\<close>.
\<close>

fun lastIndexOf_from :: "char \<Rightarrow> int \<Rightarrow> int \<Rightarrow> string \<Rightarrow> int" where
  "lastIndexOf_from c i found [] = found"
| "lastIndexOf_from c i found (x # xs) =
     lastIndexOf_from c (i + 1) (if x = c then i else found) xs"

definition lastIndexOf :: "string \<Rightarrow> char \<Rightarrow> int" where
  "lastIndexOf s c = lastIndexOf_from c 0 (- 1) s"

subsection \<open>The editing context\<close>

text \<open>
  What the callback reads from the host, as a snapshot: \<^verbatim>\<open>vscode.window.activeTextEditor\<close>
  (with \<^verbatim>\<open>document.uri.fsPath\<close>, \<^verbatim>\<open>vscode.workspace.asRelativePath(document.uri, false)\<close>,
  \<^verbatim>\<open>document.getText(selection)\<close> and \<^verbatim>\<open>selection.active.line\<close>),
  \<^verbatim>\<open>vscode.workspace.workspaceFolders\<close> (each with \<^verbatim>\<open>name\<close> and \<^verbatim>\<open>uri.fsPath\<close>),
  \<^verbatim>\<open>process.cwd()\<close> and the variables of \<^verbatim>\<open>process.env\<close>, a table from variable names
  to strings.
\<close>

record WorkspaceFolder =
  folder_name :: string
  folder_fsPath :: string

record TextEditor =
  document_fsPath :: string
  asRelativePath :: string
  selection_text :: string
  active_line :: nat

record Context =
  activeTextEditor :: "TextEditor option"
  workspaceFolders :: "WorkspaceFolder list option"
  cwd :: string
  env :: "string \<Rightarrow> string option"

subsection \<open>The replacement callback\<close>

text \<open>
  \<^verbatim>\<open>process.env[name]\<close> is a property read. For a name that is no variable it finds
  what the object inherits from \<^verbatim>\<open>Object.prototype\<close>: these are the inherited names,
  and the text \<^verbatim>\<open>replace\<close> makes of the inherited value, as Node prints it.
\<close>

definition Object_prototype_names :: "string list" where
  "Object_prototype_names =
     [''constructor'', ''__defineGetter__'', ''__defineSetter__'', ''hasOwnProperty'',
      ''__lookupGetter__'', ''__lookupSetter__'', ''isPrototypeOf'', ''propertyIsEnumerable'',
      ''toString'', ''valueOf'', ''__proto__'', ''toLocaleString'']"

definition inherited_text :: "string \<Rightarrow> string" where
  "inherited_text name =
     (if name = ''__proto__'' then ''[object Object]''
      else if name = ''constructor'' then ''function Object() { [native code] }''
      else ''function '' @ name @ ''() { [native code] }'')"

text \<open>
  \<^verbatim>\<open>process.env[name] ?? ''\<close> as the callback returns it and \<^verbatim>\<open>replace\<close> inserts it:
  the variable's value, else the text of an inherited property, else (the read gives
  \<^verbatim>\<open>undefined\<close>) the empty string.
\<close>

definition env_or_empty :: "Context \<Rightarrow> string \<Rightarrow> string" where
  "env_or_empty ctx name =
     (case env ctx name of
        Some v \<Rightarrow> v
      | None \<Rightarrow> if name \<in> set Object_prototype_names then inherited_text name else [])"

text \<open>
  \<^verbatim>\<open>editor ? vscode.workspace.asRelativePath(editor.document.uri, false).split('/').pop() || '' : ''\<close>
  (lines 52 and 56). \<^verbatim>\<open>pop\<close> gives the last part; an empty last part stays empty.
\<close>

definition basename_of_editor :: "TextEditor option \<Rightarrow> string" where
  "basename_of_editor editor =
     (case editor of
        None \<Rightarrow> []
      | Some ed \<Rightarrow> last (split_on CHR ''/'' (asRelativePath ed)))"

text \<open>
  The callback of \<^verbatim>\<open>template.replace\<close> (lines 25 to 85): the value of one expression.
  In the \<^verbatim>\<open>workspaceFolder\<close> rule \<^verbatim>\<open>parts.length === 1\<close> is the first case and
  \<^verbatim>\<open>parts[1]\<close> the name of the second; \<^verbatim>\<open>split\<close> never gives an empty array, the last
  case only completes the match.
\<close>

definition resolve_expr :: "Context \<Rightarrow> string \<Rightarrow> string" where
  "resolve_expr ctx expr =
     (let editor = activeTextEditor ctx;
          folders = (case workspaceFolders ctx of None \<Rightarrow> [] | Some fs \<Rightarrow> fs)
      in
      if startsWith expr ''env:'' then env_or_empty ctx (drop 4 expr)
      else if startsWith expr ''workspaceFolder'' then
        (case split_on CHR '':'' expr of
           [p] \<Rightarrow> (case folders of [] \<Rightarrow> [] | f # fs \<Rightarrow> folder_fsPath f)
         | p # name # ps \<Rightarrow>
             (case find (\<lambda>f. folder_name f = name) folders of
                None \<Rightarrow> []
              | Some f \<Rightarrow> folder_fsPath f)
         | [] \<Rightarrow> [])
      else if expr = ''cwd'' then cwd ctx
      else if expr = ''file'' \<or> expr = ''filePath'' then
        (case editor of None \<Rightarrow> [] | Some ed \<Rightarrow> document_fsPath ed)
      else if expr = ''fileBasename'' then basename_of_editor editor
      else if expr = ''fileBasenameNoExtension'' then
        (let base = basename_of_editor editor;
             idx = lastIndexOf base CHR ''.''
         in if idx > 0 then take (nat idx) base else base)
      else if expr = ''fileDirname'' then
        (case editor of
           None \<Rightarrow> []
         | Some ed \<Rightarrow>
             (let full = document_fsPath ed;
                  idx = lastIndexOf full CHR ''/''
              in if idx \<ge> 0 then take (nat idx) full else []))
      else if expr = ''relativeFile'' then
        (case editor of None \<Rightarrow> [] | Some ed \<Rightarrow> asRelativePath ed)
      else if expr = ''selectedText'' then
        (case editor of None \<Rightarrow> [] | Some ed \<Rightarrow> selection_text ed)
      else if expr = ''lineNumber'' then
        (case editor of None \<Rightarrow> [] | Some ed \<Rightarrow> string_of_nat (active_line ed + 1))
      else env_or_empty ctx expr)"

subsection \<open>The scan\<close>

text \<open>
  One attempt of the pattern \<^verbatim>\<open>/\$\{([^}]+)\}/\<close> at the start of \<open>s\<close>: the characters
  \<^verbatim>\<open>${\<close>, then as many characters other than \<^verbatim>\<open>}\<close> as there are (at least one), then
  \<^verbatim>\<open>}\<close>. The result is the captured expression and the text after the match.
\<close>

definition match_placeholder :: "string \<Rightarrow> (string \<times> string) option" where
  "match_placeholder s =
     (if startsWith s ''${'' then
        (let inner = takeWhile (\<lambda>c. c \<noteq> CHR ''}'') (drop 2 s);
             after = dropWhile (\<lambda>c. c \<noteq> CHR ''}'') (drop 2 s)
         in if inner \<noteq> [] \<and> after \<noteq> [] then Some (inner, tl after) else None)
      else None)"

text \<open>
  \<^verbatim>\<open>template.replace(/\$\{([^}]+)\}/g, f)\<close>: left to right, every match is replaced by the
  callback's value for its expression and the search goes on after the match; a
  character where the pattern does not match is copied. The callback's value is
  inserted as it is and not searched again.
\<close>

function replace_placeholders :: "(string \<Rightarrow> string) \<Rightarrow> string \<Rightarrow> string" where
  "replace_placeholders f s =
     (if s = [] then []
      else (case match_placeholder s of
              Some (expr, rest) \<Rightarrow> f expr @ replace_placeholders f rest
            | None \<Rightarrow> hd s # replace_placeholders f (tl s)))"
  by pat_completeness auto

lemma match_placeholder_shorter:
  "match_placeholder s = Some (expr, rest) \<Longrightarrow> length rest < length s"
proof -
  assume m: "match_placeholder s = Some (expr, rest)"
  let ?d = "dropWhile (\<lambda>c. c \<noteq> CHR ''}'') (drop 2 s)"
  from m have r: "rest = tl ?d" and ne: "?d \<noteq> []"
    by (auto simp: match_placeholder_def Let_def split: if_splits)
  have "length ?d \<le> length (drop 2 s)"
    by (rule length_dropWhile_le)
  with r ne show ?thesis
    by (cases ?d) auto
qed

termination replace_placeholders
  by (relation "measure (\<lambda>(f, s). length s)")
     (auto simp: match_placeholder_shorter intro: diff_less)

text \<open>Lines 20 to 86; \<^verbatim>\<open>!template\<close> holds for an absent and for an empty template.\<close>

definition expandVariables :: "Context \<Rightarrow> string option \<Rightarrow> string" where
  "expandVariables ctx template =
     (case template of
        None \<Rightarrow> []
      | Some t \<Rightarrow> if t = [] then [] else replace_placeholders (resolve_expr ctx) t)"

section \<open>The command\<close>

text \<open>
  What \<^verbatim>\<open>openUrlAction\<close> does to the host, in order: the notices it shows, the picker
  it opens (with the items it offers) and the URI it hands to \<^verbatim>\<open>vscode.env.openExternal\<close>.
\<close>

record QuickPickItem =
  item_label :: jsval
  item_description :: jsval
  item_entry :: UrlEntry

datatype 'u event =
    ShowInformationMessage string
  | ShowQuickPick "QuickPickItem list"
  | ShowErrorMessage string
  | OpenExternal 'u

text \<open>How the returned promise settles: fulfilled, or rejected with a thrown value.\<close>

datatype outcome = Returned | Threw js_error

text \<open>
  The host, as the command meets it: the value of the setting \<^verbatim>\<open>openUrl.urls\<close>, the
  editing context, the user's answer to \<^verbatim>\<open>showQuickPick\<close> (nothing when dismissed), and
  the three calls that may throw: \<^verbatim>\<open>encodeURI\<close>, \<^verbatim>\<open>vscode.Uri.parse\<close> and
  \<^verbatim>\<open>vscode.env.openExternal\<close>. \<open>'u\<close> is the type of parsed URIs.
\<close>

record 'u Host =
  configured_urls :: "jsval list option"
  host_context :: Context
  showQuickPick :: "QuickPickItem list \<Rightarrow> QuickPickItem option"
  encodeURI :: "string \<Rightarrow> js_error + string"
  Uri_parse :: "string \<Rightarrow> js_error + 'u"
  openExternal :: "'u \<Rightarrow> js_error + bool"

text \<open>Lines 88 to 92.\<close>

definition getConfigUrls :: "'u Host \<Rightarrow> js_error + UrlEntry list" where
  "getConfigUrls h = normalizeConfigEntries (configured_urls h)"

text \<open>
  Line 108: \<^verbatim>\<open>{ label: e.label ?? e.url, description: e.label ? e.url : undefined, entry: e }\<close>.
\<close>

definition quick_pick_item :: "UrlEntry \<Rightarrow> QuickPickItem" where
  "quick_pick_item e =
     \<lparr>item_label = (if label e = JUndefined \<or> label e = JNull then url e else label e),
      item_description = (if truthy (label e) then url e else JUndefined),
      item_entry = e\<rparr>"

text \<open>
  Lines 103 to 112, for a list that is not empty: the events and the pick
  (\<^verbatim>\<open>quick?.entry\<close> is nothing when the picker was dismissed).
\<close>

definition choose_entry :: "'u Host \<Rightarrow> UrlEntry list \<Rightarrow> 'u event list \<times> UrlEntry option" where
  "choose_entry h entries =
     (if length entries = 1 then ([], Some (hd entries))
      else (let items = map quick_pick_item entries
            in ([ShowQuickPick items], map_option item_entry (showQuickPick h items))))"

text \<open>
  \<^verbatim>\<open>expandVariables(pick.url)\<close> on the value the entry holds. The declared parameter is
  \<^verbatim>\<open>template?: string\<close>; for any other value \<^verbatim>\<open>!template\<close> decides by truthiness, and
  a truthy value that is not a string has no method \<^verbatim>\<open>replace\<close>.
\<close>

definition expandVariables_value :: "Context \<Rightarrow> jsval \<Rightarrow> js_error + string" where
  "expandVariables_value ctx v =
     (case v of
        JStr t \<Rightarrow> Inr (expandVariables ctx (Some t))
      | JUndefined \<Rightarrow> Inr (expandVariables ctx None)
      | _ \<Rightarrow> if truthy v then Inl (TypeError ''template.replace is not a function'') else Inr [])"

text \<open>
  \<^verbatim>\<open>s.trim()\<close> removes white space and line terminators at both ends; among the code
  units below 256 these are 9 to 13, 32 and 160.
\<close>

definition js_whitespace :: "char \<Rightarrow> bool" where
  "js_whitespace c = ((of_char c :: nat) \<in> {9, 10, 11, 12, 13, 32, 160})"

definition js_trim :: "string \<Rightarrow> string" where
  "js_trim s = rev (dropWhile js_whitespace (rev (dropWhile js_whitespace s)))"

text \<open>
  The body of the \<^verbatim>\<open>try\<close> block (lines 119 to 126): the events it causes, and the value
  it throws if it throws.
\<close>

definition try_open :: "'u Host \<Rightarrow> UrlEntry \<Rightarrow> 'u event list \<times> js_error option" where
  "try_open h pick =
     (case expandVariables_value (host_context h) (url pick) of
        Inl err \<Rightarrow> ([], Some err)
      | Inr expanded \<Rightarrow>
          (if expanded = [] \<or> length (js_trim expanded) = 0 then
             ([ShowErrorMessage ''URL is empty after variable expansion.''], None)
           else
             (case encodeURI h expanded of
                Inl err \<Rightarrow> ([], Some err)
              | Inr safe \<Rightarrow>
                  (case Uri_parse h safe of
                     Inl err \<Rightarrow> ([], Some err)
                   | Inr u \<Rightarrow>
                       (case openExternal h u of
                          Inl err \<Rightarrow> ([OpenExternal u], Some err)
                        | Inr opened \<Rightarrow> ([OpenExternal u], None))))))"

text \<open>The \<^verbatim>\<open>try\<close> statement with its \<^verbatim>\<open>catch\<close> (lines 118 to 129).\<close>

definition open_picked :: "'u Host \<Rightarrow> UrlEntry \<Rightarrow> 'u event list" where
  "open_picked h pick =
     (case try_open h pick of
        (evs, None) \<Rightarrow> evs
      | (evs, Some err) \<Rightarrow> evs @ [ShowErrorMessage (''Failed to open URL: '' @ error_String err)])"

text \<open>
  \<^verbatim>\<open>openUrlAction\<close> (lines 97 to 130). \<^verbatim>\<open>getConfigUrls()\<close> is called outside the
  \<^verbatim>\<open>try\<close> statement, so what it throws rejects the promise.
\<close>

definition openUrlAction :: "'u Host \<Rightarrow> 'u event list \<times> outcome" where
  "openUrlAction h =
     (case getConfigUrls h of
        Inl err \<Rightarrow> ([], Threw err)
      | Inr entries \<Rightarrow>
          (if length entries = 0 then
             ([ShowInformationMessage ''No URLs configured in `openUrl.urls`.''], Returned)
           else
             (case choose_entry h entries of
                (evs, None) \<Rightarrow> (evs, Returned)
              | (evs, Some pick) \<Rightarrow> (evs @ open_picked h pick, Returned))))"

section \<open>Predicates the statements use\<close>

text \<open>The entry's \<^verbatim>\<open>url\<close> is a string and not the empty one.\<close>

definition nonempty_url_string :: "UrlEntry \<Rightarrow> bool" where
  "nonempty_url_string e = (case url e of JStr s \<Rightarrow> s \<noteq> [] | _ \<Rightarrow> False)"

text \<open>
  The raw elements whose entry has an empty or non-string \<^verbatim>\<open>url\<close>: the empty string, an
  array that prints as the empty string (\<^verbatim>\<open>[]\<close>, \<^verbatim>\<open>[null]\<close>, \<^verbatim>\<open>[[]]\<close>), and an object
  whose \<^verbatim>\<open>url\<close> is truthy and not a string.
\<close>

definition degenerate_item :: "jsval \<Rightarrow> bool" where
  "degenerate_item it =
     (case it of
        JStr s \<Rightarrow> s = []
      | JArr xs \<Rightarrow> js_String it = Inr []
      | JObj kvs \<Rightarrow>
          (case map_of kvs ''url'' of
             None \<Rightarrow> False
           | Some u \<Rightarrow> truthy u \<and> \<not> typeof_string u)
      | _ \<Rightarrow> False)"

text \<open>
  The text has a match of the pattern \<^verbatim>\<open>/\$\{([^}]+)\}/\<close> somewhere: it still holds a
  placeholder.
\<close>

fun contains_placeholder :: "string \<Rightarrow> bool" where
  "contains_placeholder [] = False"
| "contains_placeholder (c # cs) = (match_placeholder (c # cs) \<noteq> None \<or> contains_placeholder cs)"

text \<open>
  The text holds the two characters \<^verbatim>\<open>${\<close> somewhere, and the part of a text after
  its last closing brace (all of it when it has none). A placeholder stands on its own
  when the text before it has no \<^verbatim>\<open>${\<close> left open, that is none after its last
  closing brace: else the scan is inside an earlier match when it comes to it.
\<close>

fun contains_opening :: "string \<Rightarrow> bool" where
  "contains_opening [] = False"
| "contains_opening (c # cs) = (startsWith (c # cs) ''${'' \<or> contains_opening cs)"

definition open_tail :: "string \<Rightarrow> string" where
  "open_tail s = rev (takeWhile (\<lambda>c. c \<noteq> CHR ''}'') (rev s))"


text \<open>The error notices among the events, in order.\<close>

fun error_messages :: "'u event list \<Rightarrow> string list" where
  "error_messages [] = []"
| "error_messages (ShowErrorMessage m # evs) = m # error_messages evs"
| "error_messages (e # evs) = error_messages evs"

section \<open>Properties of normalizeConfigEntries\<close>

lemma map_throwing_Inr_iff:
  "map_throwing f xs = Inr ys \<longleftrightarrow> list_all2 (\<lambda>x y. f x = Inr y) xs ys"
proof (induction xs arbitrary: ys)
  case Nil
  show ?case by auto
next
  case (Cons x xs)
  show ?case
  proof (cases "f x")
    case (Inl e)
    then show ?thesis by (auto simp: list_all2_Cons1)
  next
    case (Inr y)
    then show ?thesis
      using Cons.IH by (cases "map_throwing f xs") (auto simp: list_all2_Cons1)
  qed
qed

lemma normalizeConfigEntries_Inr_iff:
  "normalizeConfigEntries (Some raw) = Inr es \<longleftrightarrow>
     length es = length raw \<and> (\<forall>i<length raw. normalize_entry (raw ! i) = Inr (es ! i))"
  by (auto simp: normalizeConfigEntries_def map_throwing_Inr_iff list_all2_conv_all_nth)

lemma string_of_nat_nonempty: "string_of_nat n \<noteq> []"
  by (subst string_of_nat.simps) simp

lemma string_of_int_nonempty: "string_of_int i \<noteq> []"
  by (simp add: string_of_int_def string_of_nat_nonempty)

lemma normalize_entry_url:
  "normalize_entry it = Inr e \<Longrightarrow> nonempty_url_string e = (\<not> degenerate_item it)"
  by (cases it)
     (auto simp: normalize_entry_def stringified_entry_def nonempty_url_string_def
        degenerate_item_def string_of_int_nonempty
      split: if_splits sum.splits option.splits jsval.splits)

text \<open>
  C2. The claim: for every raw configuration list, also one that holds \<^verbatim>\<open>null\<close>,
  \<^verbatim>\<open>normalizeConfigEntries\<close> returns and never raises. The code at the list \<^verbatim>\<open>[null]\<close>:
  \<^verbatim>\<open>typeof null\<close> is \<^verbatim>\<open>'object'\<close>, so line 13 reads \<^verbatim>\<open>null.url\<close>, which throws a
  TypeError; the fallback of line 16 is not reached.
\<close>

theorem normalize_null_throws:
  "normalizeConfigEntries (Some [JNull]) =
     Inl (TypeError (''Cannot read properties of null (reading '' @ quoted ''url'' @ '')''))"
  by (simp add: normalizeConfigEntries_def normalize_entry_def)

text \<open>
  C4, as the code has it. The claim that every entry has a non-empty \<^verbatim>\<open>url\<close> string
  fails at the empty string, which line 11 copies as it is. What holds: when
  \<^verbatim>\<open>normalizeConfigEntries\<close> returns, no element was dropped, and the entry of an element
  has a non-empty string as its \<^verbatim>\<open>url\<close> exactly when the element is none of: the empty
  string, an array that prints as the empty string, an object whose truthy \<^verbatim>\<open>url\<close> is
  not a string.
\<close>

theorem normalize_url_nonempty_unless_degenerate:
  assumes "normalizeConfigEntries (Some raw) = Inr es"
  shows "length es = length raw \<and>
         (\<forall>i<length raw. nonempty_url_string (es ! i) = (\<not> degenerate_item (raw ! i)))"
  using assms by (simp add: normalizeConfigEntries_Inr_iff normalize_entry_url)

theorem normalize_url_nonempty_unless_degenerate_witness:
  "normalizeConfigEntries (Some [JStr ''https://example.com'', JNum 7, JStr [], JObj [(''url'', JNum 5)]]) =
     Inr [\<lparr>label = JUndefined, url = JStr ''https://example.com''\<rparr>,
          \<lparr>label = JUndefined, url = JStr ''7''\<rparr>,
          \<lparr>label = JUndefined, url = JStr []\<rparr>,
          \<lparr>label = JUndefined, url = JNum 5\<rparr>] \<and>
   nonempty_url_string \<lparr>label = JUndefined, url = JStr ''https://example.com''\<rparr> \<and>
   nonempty_url_string \<lparr>label = JUndefined, url = JStr ''7''\<rparr> \<and>
   \<not> nonempty_url_string \<lparr>label = JUndefined, url = JStr []\<rparr> \<and>
   \<not> nonempty_url_string \<lparr>label = JUndefined, url = JNum 5\<rparr>"
proof -
  let ?raw = "[JStr ''https://example.com'', JNum 7, JStr [], JObj [(''url'', JNum 5)]]"
  let ?es = "[\<lparr>label = JUndefined, url = JStr ''https://example.com''\<rparr>,
              \<lparr>label = JUndefined, url = JStr ''7''\<rparr>,
              \<lparr>label = JUndefined, url = JStr []\<rparr>,
              \<lparr>label = JUndefined, url = JNum 5\<rparr>]"
  have h: "normalizeConfigEntries (Some ?raw) = Inr ?es"
    by (simp add: normalizeConfigEntries_def normalize_entry_def stringified_entry_def
        string_of_int_def digit_char_def)
  show ?thesis
    using h normalize_url_nonempty_unless_degenerate [OF h]
    by (simp add: nonempty_url_string_def)
qed

theorem normalize_empty_string_counterexample:
  "normalizeConfigEntries (Some [JStr []]) = Inr [\<lparr>label = JUndefined, url = JStr []\<rparr>] \<and>
   \<not> nonempty_url_string \<lparr>label = JUndefined, url = JStr []\<rparr>"
  by (simp add: normalizeConfigEntries_def normalize_entry_def nonempty_url_string_def)

text \<open>
  C5. \<^verbatim>\<open>normalizeConfigEntries\<close> returns the list \<open>es\<close> for the raw list \<open>raw\<close> exactly
  when \<open>es\<close> is as long as \<open>raw\<close> and its i-th entry is the entry of the i-th element of
  \<open>raw\<close>: the output has the length and the order of the input.
\<close>

theorem normalize_length_order:
  "normalizeConfigEntries (Some raw) = Inr es \<longleftrightarrow>
     length es = length raw \<and> (\<forall>i<length raw. normalize_entry (raw ! i) = Inr (es ! i))"
  by (rule normalizeConfigEntries_Inr_iff)

theorem normalize_length_order_witness:
  "normalizeConfigEntries (Some [JStr ''https://a.example'', JObj [(''label'', JStr ''B''), (''url'', JStr ''https://b.example'')], JBool True]) =
     Inr [\<lparr>label = JUndefined, url = JStr ''https://a.example''\<rparr>,
          \<lparr>label = JStr ''B'', url = JStr ''https://b.example''\<rparr>,
          \<lparr>label = JUndefined, url = JStr ''true''\<rparr>]"
proof -
  let ?raw = "[JStr ''https://a.example'', JObj [(''label'', JStr ''B''), (''url'', JStr ''https://b.example'')], JBool True]"
  let ?es = "[\<lparr>label = JUndefined, url = JStr ''https://a.example''\<rparr>,
              \<lparr>label = JStr ''B'', url = JStr ''https://b.example''\<rparr>,
              \<lparr>label = JUndefined, url = JStr ''true''\<rparr>]"
  have "\<forall>i<length ?raw. normalize_entry (?raw ! i) = Inr (?es ! i)"
    by (simp add: normalize_entry_def stringified_entry_def less_Suc_eq numeral_3_eq_3)
  then show ?thesis
    using normalize_length_order [of ?raw ?es] by simp
qed

section \<open>Properties of expandVariables\<close>

declare replace_placeholders.simps [simp del]

lemma match_placeholder_Nil: "match_placeholder [] = None"
  by (simp add: match_placeholder_def startsWith_def)

lemma replace_Nil: "replace_placeholders f [] = []"
  by (simp add: replace_placeholders.simps)

lemma replace_match:
  "match_placeholder s = Some (expr, rest) \<Longrightarrow>
   replace_placeholders f s = f expr @ replace_placeholders f rest"
  by (subst replace_placeholders.simps) (auto simp: match_placeholder_Nil)

lemma replace_nomatch:
  "match_placeholder (c # cs) = None \<Longrightarrow>
   replace_placeholders f (c # cs) = c # replace_placeholders f cs"
  by (subst replace_placeholders.simps) simp

lemma match_placeholder_wrapped:
  "expr \<noteq> [] \<Longrightarrow> CHR ''}'' \<notin> set expr \<Longrightarrow>
   match_placeholder (''${'' @ expr @ ''}'' @ rest) = Some (expr, rest)"
proof -
  assume ne: "expr \<noteq> []" and "CHR ''}'' \<notin> set expr"
  then have "\<forall>c\<in>set expr. c \<noteq> CHR ''}''" by auto
  then have "takeWhile (\<lambda>c. c \<noteq> CHR ''}'') (expr @ CHR ''}'' # rest) = expr"
    and "dropWhile (\<lambda>c. c \<noteq> CHR ''}'') (expr @ CHR ''}'' # rest) = CHR ''}'' # rest"
    by simp_all
  with ne show ?thesis
    by (simp add: match_placeholder_def startsWith_def)
qed

lemma match_placeholder_SomeD:
  assumes "match_placeholder s = Some (expr, rest)"
  shows "s = ''${'' @ expr @ ''}'' @ rest \<and> expr \<noteq> [] \<and> CHR ''}'' \<notin> set expr"
proof -
  let ?P = "\<lambda>c. c \<noteq> CHR ''}''"
  let ?d = "dropWhile ?P (drop 2 s)"
  from assms have sw: "startsWith s ''${''" and e: "expr = takeWhile ?P (drop 2 s)"
    and r: "rest = tl ?d" and ne: "expr \<noteq> []" and dne: "?d \<noteq> []"
    by (auto simp: match_placeholder_def Let_def split: if_splits)
  from sw have s: "s = ''${'' @ drop 2 s"
    by (metis append_take_drop_id startsWith_def length_Cons list.size(3) numeral_2_eq_2)
  from dne have "\<not> ?P (hd ?d)" by (rule hd_dropWhile)
  with dne r have d: "?d = CHR ''}'' # rest" by (cases ?d) auto
  have "drop 2 s = expr @ ?d" unfolding e by simp
  with s d have "s = ''${'' @ expr @ ''}'' @ rest" by simp
  moreover have "CHR ''}'' \<notin> set expr" unfolding e by (auto dest: set_takeWhileD)
  ultimately show ?thesis using ne by simp
qed

lemma replace_no_placeholder:
  "\<not> contains_placeholder s \<Longrightarrow> replace_placeholders f s = s"
proof (induction s)
  case Nil
  show ?case by (rule replace_Nil)
next
  case (Cons c cs)
  then have "match_placeholder (c # cs) = None" and "replace_placeholders f cs = cs"
    by (cases "match_placeholder (c # cs)"; auto)+
  then show ?case by (simp add: replace_nomatch)
qed

lemma contains_placeholder_append:
  "contains_placeholder t \<Longrightarrow> contains_placeholder (pre @ t)"
  by (induction pre) (cases t; simp)+

lemma contains_placeholder_iff:
  "contains_placeholder s \<longleftrightarrow>
     (\<exists>pre expr post. s = pre @ ''${'' @ expr @ ''}'' @ post \<and> expr \<noteq> [] \<and> CHR ''}'' \<notin> set expr)"
proof
  assume "contains_placeholder s"
  then show "\<exists>pre expr post. s = pre @ ''${'' @ expr @ ''}'' @ post \<and> expr \<noteq> [] \<and> CHR ''}'' \<notin> set expr"
  proof (induction s)
    case Nil
    then show ?case by simp
  next
    case (Cons c cs)
    show ?case
    proof (cases "match_placeholder (c # cs)")
      case None
      with Cons obtain pre expr post where
        "cs = pre @ ''${'' @ expr @ ''}'' @ post" "expr \<noteq> []" "CHR ''}'' \<notin> set expr"
        by auto
      then have "c # cs = (c # pre) @ ''${'' @ expr @ ''}'' @ post \<and> expr \<noteq> [] \<and> CHR ''}'' \<notin> set expr"
        by simp
      then show ?thesis by blast
    next
      case (Some a)
      obtain expr rest where "a = (expr, rest)" by (cases a)
      with Some have "c # cs = [] @ ''${'' @ expr @ ''}'' @ rest \<and> expr \<noteq> [] \<and> CHR ''}'' \<notin> set expr"
        using match_placeholder_SomeD by simp
      then show ?thesis by blast
    qed
  qed
next
  assume "\<exists>pre expr post. s = pre @ ''${'' @ expr @ ''}'' @ post \<and> expr \<noteq> [] \<and> CHR ''}'' \<notin> set expr"
  then obtain pre expr post where s: "s = pre @ ''${'' @ expr @ ''}'' @ post"
    and e: "expr \<noteq> []" "CHR ''}'' \<notin> set expr" by blast
  from e have "match_placeholder (''${'' @ expr @ ''}'' @ post) = Some (expr, post)"
    by (rule match_placeholder_wrapped)
  then have "contains_placeholder (''${'' @ expr @ ''}'' @ post)" by simp
  then show "contains_placeholder s" unfolding s by (rule contains_placeholder_append)
qed

text \<open>
  C8. For every template \<open>t\<close> (absent or a string) and context: when the expansion of
  \<open>t\<close> holds no placeholder, expanding it again gives the same text.
\<close>

theorem expand_idempotent:
  assumes "\<not> contains_placeholder (expandVariables ctx t)"
  shows "expandVariables ctx (Some (expandVariables ctx t)) = expandVariables ctx t"
  using assms by (simp add: expandVariables_def replace_no_placeholder)

theorem expand_idempotent_witness:
  "expandVariables
     \<lparr>activeTextEditor = None, workspaceFolders = None, cwd = ''/home/alice'',
      env = [''USER'' \<mapsto> ''alice'']\<rparr>
     (Some (expandVariables
        \<lparr>activeTextEditor = None, workspaceFolders = None, cwd = ''/home/alice'',
         env = [''USER'' \<mapsto> ''alice'']\<rparr>
        (Some ''https://example.com/${env:USER}''))) =
   ''https://example.com/alice''"
proof -
  let ?ctx = "\<lparr>activeTextEditor = None, workspaceFolders = None, cwd = ''/home/alice'',
               env = [''USER'' \<mapsto> ''alice'']\<rparr>"
  have e: "expandVariables ?ctx (Some ''https://example.com/${env:USER}'') =
           ''https://example.com/alice''"
    by (simp add: expandVariables_def replace_placeholders.simps match_placeholder_def
        startsWith_def resolve_expr_def env_or_empty_def)
  have "\<not> contains_placeholder ''https://example.com/alice''"
    by (simp add: match_placeholder_def startsWith_def)
  with e show ?thesis
    using expand_idempotent [of ?ctx "Some ''https://example.com/${env:USER}''"] by simp
qed

lemma match_placeholder_append_Some:
  assumes "match_placeholder p = Some (e, rest)"
  shows "match_placeholder (p @ r) = Some (e, rest @ r)"
proof -
  from match_placeholder_SomeD [OF assms]
  have p: "p = ''${'' @ e @ ''}'' @ rest" and e: "e \<noteq> []" "CHR ''}'' \<notin> set e"
    by simp_all
  from p have "p @ r = ''${'' @ e @ ''}'' @ (rest @ r)" by simp
  then show ?thesis using match_placeholder_wrapped [OF e] by simp
qed

lemma match_placeholder_append_None:
  assumes "p \<noteq> []" and "last p = CHR ''}''" and "match_placeholder p = None"
  shows "match_placeholder (p @ r) = None"
proof (cases "CHR ''}'' \<in> set (drop 2 p)")
  case True
  let ?P = "\<lambda>c. c \<noteq> CHR ''}''"
  from True have len: "2 \<le> length p" by (cases "2 \<le> length p") auto
  then have t: "take 2 (p @ r) = take 2 p" and d: "drop 2 (p @ r) = drop 2 p @ r"
    by simp_all
  from True have tw: "takeWhile ?P (drop 2 p @ r) = takeWhile ?P (drop 2 p)"
    by (intro takeWhile_append1 [where x = "CHR ''}''"]) simp_all
  from True have dw: "dropWhile ?P (drop 2 p @ r) = dropWhile ?P (drop 2 p) @ r"
    by (intro dropWhile_append1 [where x = "CHR ''}''"]) simp_all
  from True have ne: "dropWhile ?P (drop 2 p) \<noteq> []"
    by (auto simp: dropWhile_eq_Nil_conv)
  have sw: "startsWith (p @ r) ''${'' = startsWith p ''${''"
    using len by (simp add: startsWith_def)
  from assms(3) ne show ?thesis
    unfolding match_placeholder_def sw d tw dw by (simp add: Let_def split: if_splits)
next
  case False
  have "drop 2 p = []"
  proof (rule ccontr)
    assume n: "drop 2 p \<noteq> []"
    then have "last (drop 2 p) = last p" by (simp add: last_drop)
    with n assms(2) have "CHR ''}'' \<in> set (drop 2 p)" by (metis last_in_set)
    with False show False by simp
  qed
  then have "length p \<le> 2" by simp
  from assms(1) obtain a cs where p: "p = a # cs" by (cases p) auto
  show ?thesis
  proof (cases cs)
    case Nil
    with p assms(2) show ?thesis by (simp add: match_placeholder_def startsWith_def)
  next
    case (Cons b ds)
    with p \<open>length p \<le> 2\<close> have "ds = []" by simp
    with p Cons assms(2) show ?thesis by (simp add: match_placeholder_def startsWith_def)
  qed
qed

lemma replace_append_closed:
  "p = [] \<or> last p = CHR ''}'' \<Longrightarrow>
   replace_placeholders f (p @ r) = replace_placeholders f p @ replace_placeholders f r"
proof (induction "length p" arbitrary: p rule: less_induct)
  case less
  show ?case
  proof (cases p)
    case Nil
    then show ?thesis by (simp add: replace_Nil)
  next
    case (Cons c cs)
    with less.prems have lp: "last p = CHR ''}''" by simp
    show ?thesis
    proof (cases "match_placeholder p")
      case None
      from Cons lp None have "match_placeholder (p @ r) = None"
        by (intro match_placeholder_append_None) simp_all
      with Cons have a: "replace_placeholders f (p @ r) = c # replace_placeholders f (cs @ r)"
        by (simp add: replace_nomatch)
      from None Cons have b: "replace_placeholders f p = c # replace_placeholders f cs"
        by (simp add: replace_nomatch)
      from Cons lp have "cs = [] \<or> last cs = CHR ''}''" by (cases cs) auto
      moreover from Cons have "length cs < length p" by simp
      ultimately have "replace_placeholders f (cs @ r) =
          replace_placeholders f cs @ replace_placeholders f r"
        by (rule less.hyps [rotated])
      with a b show ?thesis by simp
    next
      case (Some a)
      obtain e rest where a: "a = (e, rest)" by (cases a)
      with Some have m: "match_placeholder p = Some (e, rest)" by simp
      from match_placeholder_SomeD [OF m] have p: "p = ''${'' @ e @ ''}'' @ rest" by simp
      with lp have "rest = [] \<or> last rest = CHR ''}''" by (cases "rest = []") auto
      moreover from m have "length rest < length p" by (rule match_placeholder_shorter)
      ultimately have "replace_placeholders f (rest @ r) =
          replace_placeholders f rest @ replace_placeholders f r"
        by (rule less.hyps [rotated])
      then show ?thesis
        using replace_match [OF m] replace_match [OF match_placeholder_append_Some [OF m]]
        by simp
    qed
  qed
qed

lemma replace_wrapped:
  "expr \<noteq> [] \<Longrightarrow> CHR ''}'' \<notin> set expr \<Longrightarrow>
   replace_placeholders f (''${'' @ expr @ ''}'' @ post) = f expr @ replace_placeholders f post"
  by (rule replace_match) (rule match_placeholder_wrapped)

lemma expandVariables_Some:
  "expandVariables ctx (Some t) = replace_placeholders (resolve_expr ctx) t"
  by (simp add: expandVariables_def replace_Nil)

lemma startsWith_iff: "startsWith s p \<longleftrightarrow> (\<exists>r. s = p @ r)"
proof
  assume "startsWith s p"
  then have "s = p @ drop (length p) s"
    unfolding startsWith_def by (metis append_take_drop_id)
  then show "\<exists>r. s = p @ r" ..
next
  assume "\<exists>r. s = p @ r"
  then show "startsWith s p" by (auto simp: startsWith_def)
qed


lemma replace_no_opening:
  "\<not> contains_opening q \<Longrightarrow> s = [] \<or> hd s \<noteq> CHR ''{'' \<Longrightarrow>
   replace_placeholders f (q @ s) = q @ replace_placeholders f s"
proof (induction q)
  case Nil
  show ?case by simp
next
  case (Cons c q)
  from Cons.prems(1) have n: "\<not> startsWith (c # q) ''${''" and q: "\<not> contains_opening q"
    by simp_all
  have "\<not> startsWith (c # q @ s) ''${''"
  proof (cases q)
    case Nil
    with Cons.prems(2) show ?thesis by (cases s) (auto simp: startsWith_def)
  next
    case (Cons d ds)
    with n show ?thesis by (simp add: startsWith_def)
  qed
  then have "match_placeholder (c # q @ s) = None"
    by (simp add: match_placeholder_def)
  with Cons.IH [OF q Cons.prems(2)] show ?case
    by (simp add: replace_nomatch)
qed

lemma open_tail_split:
  "\<exists>p. s = p @ open_tail s \<and> (p = [] \<or> last p = CHR ''}'')"
proof -
  let ?P = "\<lambda>c. c \<noteq> CHR ''}''"
  let ?p = "rev (dropWhile ?P (rev s))"
  have "rev (takeWhile ?P (rev s) @ dropWhile ?P (rev s)) = s"
    by (simp only: takeWhile_dropWhile_id rev_rev_ident)
  then have "?p @ rev (takeWhile ?P (rev s)) = s"
    by (simp only: rev_append)
  then have s: "s = ?p @ open_tail s" by (simp only: open_tail_def)
  have "?p = [] \<or> last ?p = CHR ''}''"
  proof (cases "dropWhile ?P (rev s) = []")
    case True
    then show ?thesis by simp
  next
    case False
    then have "\<not> ?P (hd (dropWhile ?P (rev s)))" by (rule hd_dropWhile)
    with False show ?thesis by (simp add: last_rev)
  qed
  with s show ?thesis by blast
qed






text \<open>
  The condition on \<open>pre\<close> leaves out no placeholder the scan replaces on its own: when
  the text before has a \<^verbatim>\<open>${\<close> left open, the match starts there, and the callback
  is given the longer expression that runs up to the closing brace.
\<close>

lemma contains_opening_first:
  "contains_opening q \<Longrightarrow> \<exists>a b. q = a @ ''${'' @ b \<and> \<not> contains_opening a"
proof (induction q)
  case Nil
  then show ?case by simp
next
  case (Cons c cs)
  show ?case
  proof (cases "startsWith (c # cs) ''${''")
    case True
    then obtain r where "c # cs = ''${'' @ r" by (auto simp: startsWith_iff)
    then have "c # cs = [] @ ''${'' @ r \<and> \<not> contains_opening []" by simp
    then show ?thesis by blast
  next
    case False
    with Cons.prems have "contains_opening cs" by simp
    with Cons.IH obtain a b where cs: "cs = a @ ''${'' @ b" and a: "\<not> contains_opening a"
      by blast
    have "\<not> startsWith (c # a) ''${''"
    proof (cases a)
      case Nil
      then show ?thesis by (simp add: startsWith_def)
    next
      case (Cons d ds)
      with False cs show ?thesis by (simp add: startsWith_def)
    qed
    with a cs have "c # cs = (c # a) @ ''${'' @ b \<and> \<not> contains_opening (c # a)" by simp
    then show ?thesis by blast
  qed
qed

lemma open_tail_no_brace: "CHR ''}'' \<notin> set (open_tail s)"
  by (auto simp: open_tail_def dest: set_takeWhileD)

lemma placeholder_inside_opening:
  assumes "contains_opening (open_tail pre)" and "CHR ''}'' \<notin> set expr"
  shows "\<exists>a b. pre = a @ ''${'' @ b \<and>
           replace_placeholders f (pre @ ''${'' @ expr @ ''}'' @ post) =
           replace_placeholders f a @ f (b @ ''${'' @ expr) @ replace_placeholders f post"
proof -
  from open_tail_split obtain p where pre: "pre = p @ open_tail pre"
    and p: "p = [] \<or> last p = CHR ''}''" by blast
  from contains_opening_first [OF assms(1)] obtain a b
    where q: "open_tail pre = a @ ''${'' @ b" and a: "\<not> contains_opening a" by blast
  have "CHR ''}'' \<notin> set (open_tail pre)" by (rule open_tail_no_brace)
  with q have b: "CHR ''}'' \<notin> set b" by simp
  let ?e = "b @ ''${'' @ expr"
  from b assms(2) have e: "?e \<noteq> []" "CHR ''}'' \<notin> set ?e" by simp_all
  have w: "replace_placeholders f (''${'' @ ?e @ ''}'' @ post) = f ?e @ replace_placeholders f post"
    using e by (rule replace_wrapped)
  have l: "replace_placeholders f (a @ (''${'' @ ?e @ ''}'' @ post)) =
        a @ replace_placeholders f (''${'' @ ?e @ ''}'' @ post)"
    using a by (rule replace_no_opening) simp
  have c: "replace_placeholders f (p @ (a @ (''${'' @ ?e @ ''}'' @ post))) =
        replace_placeholders f p @ replace_placeholders f (a @ (''${'' @ ?e @ ''}'' @ post))"
    using p by (rule replace_append_closed)
  have pa: "replace_placeholders f (p @ a) = replace_placeholders f p @ a"
    using replace_append_closed [OF p, of f a] replace_no_opening [OF a, of "[]" f]
    by (simp add: replace_Nil)
  have t: "pre @ ''${'' @ expr @ ''}'' @ post = p @ (a @ (''${'' @ ?e @ ''}'' @ post))"
    using pre q by (metis append_assoc)
  have "replace_placeholders f (pre @ ''${'' @ expr @ ''}'' @ post) =
        replace_placeholders f (p @ a) @ f ?e @ replace_placeholders f post"
    unfolding t c l w pa by simp
  moreover have "pre = (p @ a) @ ''${'' @ b"
    using pre q by (metis append_assoc)
  ultimately show ?thesis by blast
qed

text \<open>
  An inherited name is no variable, and still the read finds something: line 84 returns
  the inherited function, and \<^verbatim>\<open>replace\<close> inserts its text.
\<close>

lemma expand_inherited_name:
  "expandVariables
     \<lparr>activeTextEditor = None, workspaceFolders = None, cwd = ''/'', env = Map.empty\<rparr>
     (Some ''${toString}'') = ''function toString() { [native code] }''"
  by (simp add: expandVariables_def replace_placeholders.simps match_placeholder_def
      startsWith_def resolve_expr_def env_or_empty_def Object_prototype_names_def
      inherited_text_def)

lemma split_on_absent: "c \<notin> set s \<Longrightarrow> split_on c s = [s]"
  by (induction s) auto

text \<open>
  C10. A placeholder whose expression starts with \<^verbatim>\<open>workspaceFolder\<close> and holds no
  colon (\<^verbatim>\<open>workspaceFolders\<close>, \<^verbatim>\<open>workspaceFolderX\<close>) expands to the path of the first
  workspace folder, or to the empty string when there is none, whatever the environment
  holds under that name.
\<close>

theorem expand_workspaceFolder_prefix:
  assumes "startsWith expr ''workspaceFolder''"
    and "CHR '':'' \<notin> set expr" and "CHR ''}'' \<notin> set expr"
  shows "expandVariables ctx (Some (''${'' @ expr @ ''}'')) =
         (case workspaceFolders ctx of Some (f # fs) \<Rightarrow> folder_fsPath f | _ \<Rightarrow> [])"
proof -
  from assms(1) obtain r where e: "expr = ''workspaceFolder'' @ r"
    by (auto simp: startsWith_iff)
  then have ne: "expr \<noteq> []" and noenv: "\<not> startsWith expr ''env:''"
    by (simp_all add: startsWith_def)
  have "expandVariables ctx (Some (''${'' @ expr @ ''}'' @ [])) = resolve_expr ctx expr @ []"
    unfolding expandVariables_Some using replace_wrapped [OF ne assms(3), of _ "[]"]
    by (simp add: replace_Nil)
  moreover have "resolve_expr ctx expr =
      (case workspaceFolders ctx of Some (f # fs) \<Rightarrow> folder_fsPath f | _ \<Rightarrow> [])"
    using assms(1) noenv
    by (simp add: resolve_expr_def split_on_absent [OF assms(2)] split: option.splits list.splits)
  ultimately show ?thesis by simp
qed

theorem expand_workspaceFolder_prefix_witness:
  "expandVariables
     \<lparr>activeTextEditor = None,
      workspaceFolders = Some [\<lparr>folder_name = ''frontend'', folder_fsPath = ''/a''\<rparr>,
                               \<lparr>folder_name = ''backend'', folder_fsPath = ''/b''\<rparr>],
      cwd = ''/'', env = [''workspaceFolders'' \<mapsto> ''/from-env'']\<rparr>
     (Some ''${workspaceFolders}'') = ''/a''"
  using expand_workspaceFolder_prefix [of "''workspaceFolders''"
      "\<lparr>activeTextEditor = None,
        workspaceFolders = Some [\<lparr>folder_name = ''frontend'', folder_fsPath = ''/a''\<rparr>,
                                 \<lparr>folder_name = ''backend'', folder_fsPath = ''/b''\<rparr>],
        cwd = ''/'', env = [''workspaceFolders'' \<mapsto> ''/from-env'']\<rparr>"]
  by (simp add: startsWith_def)

lemma lastIndexOf_from_absent: "c \<notin> set s \<Longrightarrow> lastIndexOf_from c i found s = found"
  by (induction s arbitrary: i) auto

lemma resolve_fileBasenameNoExtension:
  "resolve_expr ctx ''fileBasenameNoExtension'' =
     (let base = basename_of_editor (activeTextEditor ctx); idx = lastIndexOf base CHR ''.''
      in if idx > 0 then take (nat idx) base else base)"
  by (simp add: resolve_expr_def startsWith_def)

lemma expand_single:
  "expr \<noteq> [] \<Longrightarrow> CHR ''}'' \<notin> set expr \<Longrightarrow>
   expandVariables ctx (Some (''${'' @ expr @ ''}'')) = resolve_expr ctx expr"
  using replace_wrapped [of expr "resolve_expr ctx" "[]"]
  by (simp add: expandVariables_Some replace_Nil)

text \<open>
  C1, as the code has it. For an active document whose relative basename is
  \<^verbatim>\<open>.report.final.txt\<close>, the template \<^verbatim>\<open>${fileBasenameNoExtension}\<close> expands to
  \<^verbatim>\<open>.report.final\<close>: the last dot is at index 13, not 0, so line 58 cuts the name there.
  The basename is not returned unchanged.
\<close>

theorem expand_fileBasenameNoExtension_dotfile:
  assumes "basename_of_editor (activeTextEditor ctx) = ''.report.final.txt''"
  shows "expandVariables ctx (Some ''${fileBasenameNoExtension}'') = ''.report.final''"
  using expand_single [of "''fileBasenameNoExtension''" ctx] assms
  by (simp add: resolve_fileBasenameNoExtension lastIndexOf_def)

theorem expand_fileBasenameNoExtension_dotfile_witness:
  "expandVariables
     \<lparr>activeTextEditor =
        Some \<lparr>document_fsPath = ''/work/docs/.report.final.txt'',
              asRelativePath = ''docs/.report.final.txt'',
              selection_text = [], active_line = 0\<rparr>,
      workspaceFolders = Some [\<lparr>folder_name = ''work'', folder_fsPath = ''/work''\<rparr>],
      cwd = ''/work'', env = Map.empty\<rparr>
     (Some ''${fileBasenameNoExtension}'') = ''.report.final''"
  by (rule expand_fileBasenameNoExtension_dotfile) (simp add: basename_of_editor_def)

theorem expand_fileBasenameNoExtension_counterexample:
  "basename_of_editor
     (Some \<lparr>document_fsPath = ''/work/docs/.report.final.txt'',
            asRelativePath = ''docs/.report.final.txt'',
            selection_text = [], active_line = 0\<rparr>) = ''.report.final.txt'' \<and>
   expandVariables
     \<lparr>activeTextEditor =
        Some \<lparr>document_fsPath = ''/work/docs/.report.final.txt'',
              asRelativePath = ''docs/.report.final.txt'',
              selection_text = [], active_line = 0\<rparr>,
      workspaceFolders = Some [\<lparr>folder_name = ''work'', folder_fsPath = ''/work''\<rparr>],
      cwd = ''/work'', env = Map.empty\<rparr>
     (Some ''${fileBasenameNoExtension}'') \<noteq> ''.report.final.txt''"
  by (simp add: basename_of_editor_def expandVariables_def replace_placeholders.simps
      match_placeholder_def startsWith_def resolve_expr_def lastIndexOf_def)

text \<open>
  The leading dot keeps a name whole only when it is the name's only dot
  (\<^verbatim>\<open>.gitignore\<close>): then the last dot is at index 0.
\<close>

lemma expand_fileBasenameNoExtension_only_leading_dot:
  assumes "basename_of_editor (activeTextEditor ctx) = CHR ''.'' # stem"
    and "CHR ''.'' \<notin> set stem"
  shows "expandVariables ctx (Some ''${fileBasenameNoExtension}'') = CHR ''.'' # stem"
  using expand_single [of "''fileBasenameNoExtension''" ctx] assms
  by (simp add: resolve_fileBasenameNoExtension lastIndexOf_def lastIndexOf_from_absent)

section \<open>Properties of the command\<close>

lemma error_messages_append: "error_messages (xs @ ys) = error_messages xs @ error_messages ys"
  by (induction xs rule: error_messages.induct) simp_all

lemma choose_entry_events:
  "choose_entry h entries = (evs, pk) \<Longrightarrow>
   error_messages evs = [] \<and> (\<forall>u. OpenExternal u \<notin> set evs)"
  by (auto simp: choose_entry_def Let_def split: if_splits)

lemma js_trim_Nil_iff: "js_trim s = [] \<longleftrightarrow> (\<forall>c\<in>set s. js_whitespace c)"
proof
  assume t: "js_trim s = []"
  have "dropWhile js_whitespace s = []"
  proof (rule ccontr)
    assume n: "dropWhile js_whitespace s \<noteq> []"
    then have "\<not> js_whitespace (hd (dropWhile js_whitespace s))" by (rule hd_dropWhile)
    moreover from t n have "js_whitespace (hd (dropWhile js_whitespace s))"
      by (simp add: js_trim_def)
    ultimately show False by simp
  qed
  then show "\<forall>c\<in>set s. js_whitespace c" by simp
next
  assume "\<forall>c\<in>set s. js_whitespace c"
  then have d: "dropWhile js_whitespace s = []" by simp
  show "js_trim s = []" unfolding js_trim_def d by simp
qed

lemma js_trim_blank: "(\<forall>c\<in>set s. js_whitespace c) \<Longrightarrow> js_trim s = []"
  by (simp add: js_trim_Nil_iff)

lemma open_picked_no_picker: "ShowQuickPick items \<notin> set (open_picked h e)"
  by (auto simp: open_picked_def try_open_def split: sum.splits prod.splits option.splits if_splits)

text \<open>
  C6. When the normalized list has exactly one entry, that entry is the pick, the
  command goes on with it, no picker is opened, and the answer the picker would give
  changes nothing.
\<close>

theorem single_entry_no_picker:
  assumes "getConfigUrls h = Inr [e]"
  shows "choose_entry h [e] = ([], Some e) \<and>
         openUrlAction h = (open_picked h e, Returned) \<and>
         (\<forall>items. ShowQuickPick items \<notin> set (fst (openUrlAction h))) \<and>
         openUrlAction (h\<lparr>showQuickPick := answer\<rparr>) = openUrlAction h"
proof -
  have c: "\<And>g. choose_entry g [e] = ([], Some e)"
    by (simp add: choose_entry_def)
  from assms have a: "openUrlAction h = (open_picked h e, Returned)"
    by (simp add: openUrlAction_def c)
  from assms have "getConfigUrls (h\<lparr>showQuickPick := answer\<rparr>) = Inr [e]"
    by (simp add: getConfigUrls_def)
  then have "openUrlAction (h\<lparr>showQuickPick := answer\<rparr>) =
      (open_picked (h\<lparr>showQuickPick := answer\<rparr>) e, Returned)"
    by (simp add: openUrlAction_def c)
  moreover have "open_picked (h\<lparr>showQuickPick := answer\<rparr>) e = open_picked h e"
    by (simp add: open_picked_def try_open_def cong: sum.case_cong if_cong)
  ultimately show ?thesis using a c by (simp add: open_picked_no_picker)
qed

theorem single_entry_no_picker_witness:
  "openUrlAction
     \<lparr>configured_urls = Some [JStr ''https://example.com/${env:USER}''],
      host_context = \<lparr>activeTextEditor = None, workspaceFolders = None, cwd = ''/'',
                       env = [''USER'' \<mapsto> ''alice'']\<rparr>,
      showQuickPick = (\<lambda>items. None), encodeURI = Inr, Uri_parse = Inr,
      openExternal = (\<lambda>u. Inr True)\<rparr> =
   ([OpenExternal ''https://example.com/alice''], Returned)"
proof -
  let ?h = "\<lparr>configured_urls = Some [JStr ''https://example.com/${env:USER}''],
      host_context = \<lparr>activeTextEditor = None, workspaceFolders = None, cwd = ''/'',
                       env = [''USER'' \<mapsto> ''alice'']\<rparr>,
      showQuickPick = (\<lambda>items. None), encodeURI = Inr, Uri_parse = Inr,
      openExternal = (\<lambda>u. Inr True)\<rparr> :: string Host"
  let ?e = "\<lparr>label = JUndefined, url = JStr ''https://example.com/${env:USER}''\<rparr>"
  have g: "getConfigUrls ?h = Inr [?e]"
    by (simp add: getConfigUrls_def normalizeConfigEntries_def normalize_entry_def)
  have x: "expandVariables_value (host_context ?h) (url ?e) = Inr ''https://example.com/alice''"
    by (simp add: expandVariables_value_def expandVariables_def replace_placeholders.simps
        match_placeholder_def startsWith_def resolve_expr_def env_or_empty_def)
  have t: "js_trim ''https://example.com/alice'' \<noteq> []"
    by (simp add: js_trim_def js_whitespace_def)
  have "open_picked ?h ?e = [OpenExternal ''https://example.com/alice'']"
    using t by (simp add: open_picked_def try_open_def x [simplified])
  then show ?thesis
    using single_entry_no_picker [OF g] by simp
qed

text \<open>
  C7. When the url of the chosen entry expands to an empty string or to white space
  only, the command shows the error \<^verbatim>\<open>URL is empty after variable expansion.\<close> and
  returns; the opener is not called.
\<close>

theorem empty_expansion_reported:
  assumes "getConfigUrls h = Inr entries" and "entries \<noteq> []"
    and "choose_entry h entries = (evs, Some pick)"
    and "expandVariables_value (host_context h) (url pick) = Inr expanded"
    and "\<forall>c\<in>set expanded. js_whitespace c"
  shows "openUrlAction h =
           (evs @ [ShowErrorMessage ''URL is empty after variable expansion.''], Returned) \<and>
         (\<forall>u. OpenExternal u \<notin> set (fst (openUrlAction h)))"
proof -
  from assms(5) have "js_trim expanded = []" by (rule js_trim_blank)
  with assms(4) have "open_picked h pick =
      [ShowErrorMessage ''URL is empty after variable expansion.'']"
    by (simp add: open_picked_def try_open_def)
  with assms(1,2,3) have "openUrlAction h =
      (evs @ [ShowErrorMessage ''URL is empty after variable expansion.''], Returned)"
    by (simp add: openUrlAction_def)
  moreover from assms(3) have "\<forall>u. OpenExternal u \<notin> set evs"
    using choose_entry_events by blast
  ultimately show ?thesis by simp
qed

theorem empty_expansion_reported_witness:
  "openUrlAction
     \<lparr>configured_urls = Some [JObj [(''url'', JStr '' ${selectedText} '')]],
      host_context = \<lparr>activeTextEditor = None, workspaceFolders = None, cwd = ''/'',
                       env = Map.empty\<rparr>,
      showQuickPick = (\<lambda>items. None), encodeURI = Inr, Uri_parse = Inr,
      openExternal = (\<lambda>u. Inr True)\<rparr> =
   ([ShowErrorMessage ''URL is empty after variable expansion.''], Returned)"
proof -
  let ?h = "\<lparr>configured_urls = Some [JObj [(''url'', JStr '' ${selectedText} '')]],
      host_context = \<lparr>activeTextEditor = None, workspaceFolders = None, cwd = ''/'',
                       env = Map.empty\<rparr>,
      showQuickPick = (\<lambda>items. None), encodeURI = Inr, Uri_parse = Inr,
      openExternal = (\<lambda>u. Inr True)\<rparr> :: string Host"
  let ?e = "\<lparr>label = JUndefined, url = JStr '' ${selectedText} ''\<rparr>"
  have g: "getConfigUrls ?h = Inr [?e]"
    by (simp add: getConfigUrls_def normalizeConfigEntries_def normalize_entry_def)
  have c: "choose_entry ?h [?e] = ([], Some ?e)"
    by (simp add: choose_entry_def)
  have x: "expandVariables_value (host_context ?h) (url ?e) = Inr ''  ''"
    by (simp add: expandVariables_value_def expandVariables_def replace_placeholders.simps
        match_placeholder_def startsWith_def resolve_expr_def)
  have w: "\<forall>c\<in>set ''  ''. js_whitespace c"
    by (simp add: js_whitespace_def)
  show ?thesis
    using empty_expansion_reported [OF g _ c x w] by simp
qed

text \<open>
  C9. When \<^verbatim>\<open>encodeURI\<close>, \<^verbatim>\<open>vscode.Uri.parse\<close> or \<^verbatim>\<open>vscode.env.openExternal\<close> fails
  for the expanded url, the command returns all the same (the failure is not thrown
  on), and it shows one error notice, \<^verbatim>\<open>Failed to open URL:\<close> followed by the
  failure's description.
\<close>

theorem opener_failure_reported:
  assumes "getConfigUrls h = Inr entries" and "entries \<noteq> []"
    and "choose_entry h entries = (evs, Some pick)"
    and "expandVariables_value (host_context h) (url pick) = Inr expanded"
    and "js_trim expanded \<noteq> []"
    and "encodeURI h expanded = Inl err \<or>
         (\<exists>safe. encodeURI h expanded = Inr safe \<and>
            (Uri_parse h safe = Inl err \<or>
             (\<exists>u. Uri_parse h safe = Inr u \<and> openExternal h u = Inl err)))"
  shows "snd (openUrlAction h) = Returned \<and>
         error_messages (fst (openUrlAction h)) = [''Failed to open URL: '' @ error_String err]"
proof -
  from assms(5) have ne: "expanded \<noteq> []" by (auto simp: js_trim_def)
  from assms(4,5,6) ne have "error_messages (open_picked h pick) =
      [''Failed to open URL: '' @ error_String err]"
    by (auto simp: open_picked_def try_open_def)
  moreover from assms(3) have "error_messages evs = []"
    using choose_entry_events by blast
  moreover from assms(1,2,3) have "openUrlAction h = (evs @ open_picked h pick, Returned)"
    by (simp add: openUrlAction_def)
  ultimately show ?thesis by (simp add: error_messages_append)
qed

theorem opener_failure_reported_witness:
  "openUrlAction
     \<lparr>configured_urls = Some [JStr ''https://example.com''],
      host_context = \<lparr>activeTextEditor = None, workspaceFolders = None, cwd = ''/'',
                       env = Map.empty\<rparr>,
      showQuickPick = (\<lambda>items. None), encodeURI = Inr, Uri_parse = Inr,
      openExternal = (\<lambda>u. Inl (Failure ''Error: no handler''))\<rparr> =
   ([OpenExternal ''https://example.com'',
     ShowErrorMessage ''Failed to open URL: Error: no handler''], Returned)"
proof -
  let ?h = "\<lparr>configured_urls = Some [JStr ''https://example.com''],
      host_context = \<lparr>activeTextEditor = None, workspaceFolders = None, cwd = ''/'',
                       env = Map.empty\<rparr>,
      showQuickPick = (\<lambda>items. None), encodeURI = Inr, Uri_parse = Inr,
      openExternal = (\<lambda>u. Inl (Failure ''Error: no handler''))\<rparr> :: string Host"
  let ?e = "\<lparr>label = JUndefined, url = JStr ''https://example.com''\<rparr>"
  have g: "getConfigUrls ?h = Inr [?e]"
    by (simp add: getConfigUrls_def normalizeConfigEntries_def normalize_entry_def)
  have c: "choose_entry ?h [?e] = ([], Some ?e)"
    by (simp add: choose_entry_def)
  have x: "expandVariables_value (host_context ?h) (url ?e) = Inr ''https://example.com''"
    by (simp add: expandVariables_value_def expandVariables_def replace_placeholders.simps
        match_placeholder_def startsWith_def)
  have t: "js_trim ''https://example.com'' \<noteq> []"
    by (simp add: js_trim_def js_whitespace_def)
  have o: "openUrlAction ?h = ([OpenExternal ''https://example.com''] @
      [ShowErrorMessage ''Failed to open URL: Error: no handler''], Returned)"
    using t by (simp add: openUrlAction_def g c open_picked_def try_open_def x [simplified])
  have "snd (openUrlAction ?h) = Returned \<and>
        error_messages (fst (openUrlAction ?h)) =
          [''Failed to open URL: '' @ error_String (Failure ''Error: no handler'')]"
    using g _ c x t by (rule opener_failure_reported) simp_all
  with o show ?thesis by simp
qed

text \<open>The only throw that leaves the command is the one of \<^verbatim>\<open>getConfigUrls\<close>.\<close>

lemma openUrlAction_propagates_only_config:
  "snd (openUrlAction h) = Threw err \<longleftrightarrow> getConfigUrls h = Inl err"
  by (auto simp: openUrlAction_def split: sum.splits prod.splits option.splits)

end
